theory Spec2Isabelle
  imports Complex_Main
begin

section \<open>The adaptive signal controller (ai\_controller.js) and the simulation it drives\<close>

text \<open>
  The controller and the simulation share file-scope variables. The model gathers them in
  one record that every handler takes and returns. JavaScript numbers are modelled as
  \<open>real\<close> (exact arithmetic in place of IEEE doubles); counters that only ever hold
  non-negative integers are \<open>nat\<close>. Time stamps (\<open>Date.now()\<close>) and the draws of
  \<open>Math.random()\<close> are parameters of the handlers that read them.
\<close>

subsection \<open>Data\<close>

text \<open>\<open>const SIGNAL = { RED: 'R', GREEN: 'G', YELLOW: 'Y' }\<close>\<close>

datatype signal = RED | GREEN | YELLOW

datatype dir = N | S | E | W

datatype action = KEEP | SWITCH

text \<open>The local \<open>currentPhase\<close> of \<open>update\<close> (the strings \<open>'NS'\<close> and \<open>'EW'\<close>).\<close>

datatype phase = PhaseNS | PhaseEW

text \<open>The fields of a vehicle that the controller reads.\<close>

record vehicle =
  origin :: dir
  waiting :: bool
  active :: bool

record signals =
  NS :: signal
  EW :: signal

record metrics =
  total :: nat
  totalWait :: real
  throughput :: nat
  startTime :: real

record emissions =
  co2 :: real
  fuel :: real
  nox :: real

record lane =
  redDuration :: real
  priority :: real

text \<open>A snapshot written by \<open>endBaseline\<close> (with \<open>maxWait\<close>) or \<open>recordAIMetrics\<close> (without).\<close>

record comparisonRecord =
  r_avgWait :: real
  r_co2 :: real
  r_fuel :: real
  r_nox :: real
  r_maxWait :: "real option"
  r_duration :: real
  r_throughput :: nat

record comparison =
  baseline :: "comparisonRecord option"
  ai :: "comparisonRecord option"
  isRunningBaseline :: bool
  baselineTimer :: real
  baselineDuration :: real
  baselinePhaseTimer :: real
  baselinePhaseInterval :: real

text \<open>A row of the Q-table: \<open>{ KEEP: 0, SWITCH: 0 }\<close>.\<close>

record qrow =
  keepQ :: real
  switchQ :: real

type_synonym qtable = "string \<rightharpoonup> qrow"

text \<open>
  The whole state. \<open>pendingSwitch\<close> is the suspended rest of \<open>performSwitch\<close> during
  \<open>await sleep(2000)\<close>: the branch that was entered. \<open>aiTimers\<close> counts the pending
  \<open>setTimeout\<close> callbacks of \<open>endBaseline\<close>. \<open>btnStartDisabled\<close> is the
  \<open>disabled\<close> attribute of the start button, which decides whether the baseline
  button's \<open>click()\<close> on it has an effect.
\<close>

record state =
  isRunning :: bool
  isAIEnabled :: bool
  timeScale :: real
  vehicles :: "vehicle list"
  signals :: signals
  metrics :: metrics
  cleared :: nat
  simElapsedTime :: real
  emissionsTotal :: emissions
  laneState :: "dir \<Rightarrow> lane"
  comparisonData :: comparison
  qTable :: qtable
  currentEpsilon :: real
  lastSwitchTime :: real
  lastTickTime :: real
  totalReward :: real
  switching :: bool
  prevStateKey :: "string option"
  prevAction :: "action option"
  episodeSteps :: nat
  starvationEvents :: nat
  pendingSwitch :: "phase option"
  aiTimers :: nat
  btnStartDisabled :: bool

subsection \<open>Configuration constants\<close>

text \<open>\<open>EMISSIONS.IDLE\<close> and \<open>EMISSIONS.MOVING\<close>, per vehicle per second.\<close>

definition EMISSIONS_IDLE :: emissions where
  "EMISSIONS_IDLE = \<lparr>co2 = 23 / 10, fuel = 8 / 10000, nox = 15 / 1000\<rparr>"

definition EMISSIONS_MOVING :: emissions where
  "EMISSIONS_MOVING = \<lparr>co2 = 5 / 10, fuel = 2 / 10000, nox = 3 / 1000\<rparr>"

text \<open>\<open>Q_CONFIG\<close>\<close>

definition Q_alpha :: real where "Q_alpha = 15 / 100"
definition Q_gamma :: real where "Q_gamma = 9 / 10"
definition Q_epsilon :: real where "Q_epsilon = 3 / 10"
definition Q_epsilonDecay :: real where "Q_epsilonDecay = 998 / 1000"
definition Q_epsilonMin :: real where "Q_epsilonMin = 5 / 100"
definition queueBins :: "real list" where "queueBins = [0, 3, 7, 12, 20]"
definition redBins :: "real list" where "redBins = [0, 10, 30, 60, 100]"

text \<open>\<open>FAIR_CONFIG\<close>\<close>

definition FAIR_alpha :: real where "FAIR_alpha = 6 / 10"
definition FAIR_beta :: real where "FAIR_beta = 4 / 10"
definition starvationThreshold :: real where "starvationThreshold = 120"
definition minGreen :: real where "minGreen = 7"
definition maxGreen :: real where "maxGreen = 60"

subsection \<open>State discretisation and the Q-table\<close>

text \<open>
  \<^verbatim>\<open>for (let i = bins.length - 1; i >= 0; i--) { if (value >= bins[i]) return i; } return 0;\<close>
  The loop counter of the model is the number of indices still to visit, so the index
  inspected in \<open>discretize_loop value bins (Suc i)\<close> is \<open>i\<close>.
\<close>

fun discretize_loop :: "real \<Rightarrow> real list \<Rightarrow> nat \<Rightarrow> nat" where
  "discretize_loop v bins 0 = 0"
| "discretize_loop v bins (Suc i) = (if v \<ge> bins ! i then i else discretize_loop v bins i)"

definition discretize :: "real \<Rightarrow> real list \<Rightarrow> nat" where
  "discretize v bins = discretize_loop v bins (length bins)"

text \<open>
  The template literal of \<open>getStateKey\<close> prints each bin index in decimal;
  \<open>string_of_nat\<close> is that conversion of a non-negative integer.
\<close>

definition digit_char :: "nat \<Rightarrow> char" where
  "digit_char d = ''0123456789'' ! d"

function string_of_nat :: "nat \<Rightarrow> string" where
  "string_of_nat n =
     (if n < 10 then [digit_char n] else string_of_nat (n div 10) @ [digit_char (n mod 10)])"
  by pat_completeness auto
termination
  by (relation "measure id") auto

declare string_of_nat.simps [simp del]

definition getStateKey :: "nat \<Rightarrow> nat \<Rightarrow> real \<Rightarrow> string" where
  "getStateKey qNS qEW maxRedDuration =
     (let qNSBin = discretize (real qNS) queueBins;
          qEWBin = discretize (real qEW) queueBins;
          redBin = discretize maxRedDuration redBins
      in string_of_nat qNSBin @ ''_'' @ string_of_nat qEWBin @ ''_'' @ string_of_nat redBin)"

definition zeroRow :: qrow where
  "zeroRow = \<lparr>keepQ = 0, switchQ = 0\<rparr>"

definition readRow :: "qrow \<Rightarrow> action \<Rightarrow> real" where
  "readRow r a = (case a of KEEP \<Rightarrow> keepQ r | SWITCH \<Rightarrow> switchQ r)"

definition writeRow :: "qrow \<Rightarrow> action \<Rightarrow> real \<Rightarrow> qrow" where
  "writeRow r a v = (case a of KEEP \<Rightarrow> r\<lparr>keepQ := v\<rparr> | SWITCH \<Rightarrow> r\<lparr>switchQ := v\<rparr>)"

text \<open>
  \<open>getQValue\<close> creates a missing row before it reads, so it returns the table too.
\<close>

definition getQValue :: "string \<Rightarrow> action \<Rightarrow> qtable \<Rightarrow> real \<times> qtable" where
  "getQValue stateKey a t =
     (case t stateKey of
        None \<Rightarrow> (readRow zeroRow a, t(stateKey \<mapsto> zeroRow))
      | Some r \<Rightarrow> (readRow r a, t))"

definition setQValue :: "string \<Rightarrow> action \<Rightarrow> real \<Rightarrow> qtable \<Rightarrow> qtable" where
  "setQValue stateKey a v t =
     (case t stateKey of
        None \<Rightarrow> t(stateKey \<mapsto> writeRow zeroRow a v)
      | Some r \<Rightarrow> t(stateKey \<mapsto> writeRow r a v))"

definition getBestAction :: "string \<Rightarrow> qtable \<Rightarrow> action \<times> qtable" where
  "getBestAction stateKey t =
     (let (keep, t1) = getQValue stateKey KEEP t;
          (sw, t2) = getQValue stateKey SWITCH t1
      in (if keep \<ge> sw then KEEP else SWITCH, t2))"

subsection \<open>The controller: queues, the 500 ms tick, the baseline run\<close>

text \<open>\<open>getQueues\<close>: the waiting vehicles per origin, and the two sums per axis.\<close>

record queues =
  cnt :: "dir \<Rightarrow> nat"
  qNS :: nat
  qEW :: nat

definition getQueues :: "vehicle list \<Rightarrow> queues" where
  "getQueues vs =
     (let q = foldl (\<lambda>q v. if waiting v then q(origin v := q (origin v) + 1) else q) (\<lambda>d. 0) vs
      in \<lparr>cnt = q, qNS = q N + q S, qEW = q E + q W\<rparr>)"

text \<open>
  \<open>parseFloat(x.toFixed(f))\<close>: the decimal with \<open>f\<close> fractional digits nearest to
  \<open>x\<close>, the larger magnitude on a tie. The source rounds the double's binary value,
  so the two differ where a decimal tie is not a double (\<open>(0.35).toFixed(1)\<close> is 0.3).
  Only the snapshots of \<open>endBaseline\<close> and \<open>recordAIMetrics\<close> hold such values, and no
  theorem below reads them.
\<close>

definition toFixed :: "nat \<Rightarrow> real \<Rightarrow> real" where
  "toFixed f x = sgn x * real_of_int \<lfloor>\<bar>x\<bar> * 10 ^ f + 1 / 2\<rfloor> / 10 ^ f"

definition zeroEmissions :: emissions where
  "zeroEmissions = \<lparr>co2 = 0, fuel = 0, nox = 0\<rparr>"

definition avgWaitOf :: "metrics \<Rightarrow> real" where
  "avgWaitOf m = (if throughput m > 0 then totalWait m / real (throughput m) else 0)"

definition endBaseline :: "state \<Rightarrow> state" where
  "endBaseline s =
     (let cd = comparisonData s;
          ls = laneState s;
          maxRedAll = max (redDuration (ls N)) (max (redDuration (ls S))
                        (max (redDuration (ls E)) (redDuration (ls W))));
          snapshot = \<lparr>r_avgWait = toFixed 1 (avgWaitOf (metrics s)),
                      r_co2 = toFixed 1 (co2 (emissionsTotal s)),
                      r_fuel = toFixed 4 (fuel (emissionsTotal s)),
                      r_nox = toFixed 2 (nox (emissionsTotal s)),
                      r_maxWait = Some (toFixed 1 maxRedAll),
                      r_duration = baselineDuration cd,
                      r_throughput = throughput (metrics s)\<rparr>
      in s\<lparr>comparisonData := cd\<lparr>isRunningBaseline := False, baseline := Some snapshot\<rparr>,
           emissionsTotal := zeroEmissions,
           metrics := (metrics s)\<lparr>totalWait := 0, throughput := 0\<rparr>,
           cleared := 0,
           isAIEnabled := True,
           aiTimers := aiTimers s + 1\<rparr>)"

definition recordAIMetrics :: "state \<Rightarrow> state" where
  "recordAIMetrics s =
     (let cd = comparisonData s;
          snapshot = \<lparr>r_avgWait = toFixed 1 (avgWaitOf (metrics s)),
                      r_co2 = toFixed 1 (co2 (emissionsTotal s)),
                      r_fuel = toFixed 4 (fuel (emissionsTotal s)),
                      r_nox = toFixed 2 (nox (emissionsTotal s)),
                      r_maxWait = None,
                      r_duration = baselineDuration cd,
                      r_throughput = throughput (metrics s)\<rparr>
      in s\<lparr>comparisonData := cd\<lparr>ai := Some snapshot\<rparr>\<rparr>)"

text \<open>The emissions of one tick: \<open>vehicles.forEach\<close> over the active vehicles.\<close>

definition tickEmissions :: "real \<Rightarrow> real \<Rightarrow> vehicle list \<Rightarrow> emissions" where
  "tickEmissions dt ts vs =
     foldl (\<lambda>acc v.
        if \<not> active v then acc
        else (let rates = (if waiting v then EMISSIONS_IDLE else EMISSIONS_MOVING)
              in \<lparr>co2 = co2 acc + co2 rates * dt * ts,
                  fuel = fuel acc + fuel rates * dt * ts,
                  nox = nox acc + nox rates * dt * ts\<rparr>))
       zeroEmissions vs"

definition laneSignal :: "signals \<Rightarrow> dir \<Rightarrow> signal" where
  "laneSignal sg d = (if d = N \<or> d = S then NS sg else EW sg)"

definition advanceRedDurations :: "real \<Rightarrow> signals \<Rightarrow> (dir \<Rightarrow> lane) \<Rightarrow> (dir \<Rightarrow> lane)" where
  "advanceRedDurations elapsed sg ls =
     (\<lambda>d. if laneSignal sg d \<noteq> GREEN
          then (ls d)\<lparr>redDuration := redDuration (ls d) + elapsed\<rparr>
          else (ls d)\<lparr>redDuration := 0\<rparr>)"

definition calcPriorities :: "queues \<Rightarrow> (dir \<Rightarrow> lane) \<Rightarrow> (dir \<Rightarrow> lane)" where
  "calcPriorities q ls =
     (let maxQ = max 1 (max (real (cnt q N)) (max (real (cnt q S))
                   (max (real (cnt q E)) (real (cnt q W)))));
          maxRed = max 1 (max (redDuration (ls N)) (max (redDuration (ls S))
                     (max (redDuration (ls E)) (redDuration (ls W)))))
      in (\<lambda>d. (ls d)\<lparr>priority := FAIR_alpha * (real (cnt q d) / maxQ)
                                  + FAIR_beta * (redDuration (ls d) / max maxRed 1)\<rparr>))"

text \<open>
  The baseline part of \<open>tick\<close>; \<open>elapsed\<close> is \<open>dt * timeScale\<close>. The phase flip is
  tested before the end of the run. The two timers are sums of reals here and sums of
  doubles in the source: they agree as long as the step and every partial sum are
  doubles (\<open>exactDouble\<close> below), and the theorem on the length of a baseline run is
  stated for such steps only. For other steps (1.2 s, 0.4 s) the rounded sums can stay
  below 30 where the exact sum reaches it, and the source flips one tick later.
\<close>

definition baselineTick :: "real \<Rightarrow> state \<Rightarrow> state" where
  "baselineTick elapsed s =
     (if isRunningBaseline (comparisonData s) then
        (let cd1 = (comparisonData s)\<lparr>baselineTimer := baselineTimer (comparisonData s) + elapsed,
                     baselinePhaseTimer := baselinePhaseTimer (comparisonData s) + elapsed\<rparr>;
             s1 = s\<lparr>comparisonData := cd1\<rparr>;
             s2 = (if baselinePhaseTimer cd1 \<ge> baselinePhaseInterval cd1
                   then s1\<lparr>comparisonData := cd1\<lparr>baselinePhaseTimer := 0\<rparr>,
                          signals := (if NS (signals s1) = GREEN
                                      then (signals s1)\<lparr>NS := RED, EW := GREEN\<rparr>
                                      else (signals s1)\<lparr>EW := RED, NS := GREEN\<rparr>)\<rparr>
                   else s1)
         in if baselineTimer (comparisonData s2) \<ge> baselineDuration (comparisonData s2)
            then endBaseline s2 else s2)
      else s)"

definition tick :: "real \<Rightarrow> state \<Rightarrow> state" where
  "tick now s =
     (if \<not> isRunning s then s
      else
        (let dt = (now - lastTickTime s) / 1000;
             te = tickEmissions dt (timeScale s) (vehicles s);
             em = emissionsTotal s;
             ls1 = advanceRedDurations (dt * timeScale s) (signals s) (laneState s);
             ls2 = calcPriorities (getQueues (vehicles s)) ls1;
             s1 = s\<lparr>lastTickTime := now,
                    emissionsTotal := \<lparr>co2 = co2 em + co2 te, fuel = fuel em + fuel te,
                                      nox = nox em + nox te\<rparr>,
                    laneState := ls2\<rparr>
         in baselineTick (dt * timeScale s) s1))"

definition startBaseline :: "state \<Rightarrow> state" where
  "startBaseline s =
     (if isRunningBaseline (comparisonData s) then s
      else s\<lparr>emissionsTotal := zeroEmissions,
             metrics := (metrics s)\<lparr>totalWait := 0, throughput := 0\<rparr>,
             cleared := 0,
             comparisonData := (comparisonData s)\<lparr>baselineTimer := 0, baselinePhaseTimer := 0,
                                 isRunningBaseline := True\<rparr>,
             isAIEnabled := False,
             signals := (signals s)\<lparr>NS := GREEN, EW := RED\<rparr>\<rparr>)"

subsection \<open>The decision loop and the phase transition\<close>

text \<open>
  \<open>performSwitch\<close> is asynchronous. Its part before \<open>await sleep(2000)\<close> runs within
  the caller's turn: the re-entrancy guard, the flag, and YELLOW for the axis that is
  GREEN (for EW when NS is not GREEN). The part after the sleep is a turn of its own,
  \<open>performSwitchResume\<close>, which reads the signals as they are then.
\<close>

definition performSwitch :: "state \<Rightarrow> state" where
  "performSwitch s =
     (if switching s then s
      else if NS (signals s) = GREEN
      then s\<lparr>switching := True, signals := (signals s)\<lparr>NS := YELLOW\<rparr>,
             pendingSwitch := Some PhaseNS\<rparr>
      else s\<lparr>switching := True, signals := (signals s)\<lparr>EW := YELLOW\<rparr>,
             pendingSwitch := Some PhaseEW\<rparr>)"

definition performSwitchResume :: "real \<Rightarrow> state \<Rightarrow> state" where
  "performSwitchResume now s =
     (case pendingSwitch s of
        None \<Rightarrow> s
      | Some PhaseNS \<Rightarrow>
          s\<lparr>signals := (signals s)\<lparr>NS := RED, EW := GREEN\<rparr>,
            lastSwitchTime := now, switching := False, pendingSwitch := None\<rparr>
      | Some PhaseEW \<Rightarrow>
          s\<lparr>signals := (signals s)\<lparr>EW := RED, NS := GREEN\<rparr>,
            lastSwitchTime := now, switching := False, pendingSwitch := None\<rparr>)"

text \<open>
  The way a call of \<open>update\<close> ends: an early return, one of the two forced switches
  (each with its own log line), the minimum-green return, or the Q-agent's choice.
\<close>

datatype outcome = Idle | StarvationSwitch | MinGreenHold | MaxGreenSwitch | QKeep | QSwitch

text \<open>
  The reward credit to the previous (state, action) pair, done only when both are set.
\<close>

definition creditPrevious :: "queues \<Rightarrow> real \<Rightarrow> real \<Rightarrow> string \<Rightarrow> state \<Rightarrow> state" where
  "creditPrevious q maxRedNS maxRedEW stateKey s =
     (case (prevStateKey s, prevAction s) of
        (Some pk, Some pa) \<Rightarrow>
          (let totalWaiting = qNS q + qEW q;
               fairnessBonus = - \<bar>maxRedNS - maxRedEW\<bar> * (1 / 10);
               reward = - real totalWaiting + fairnessBonus;
               (oldQ, t1) = getQValue pk pa (qTable s);
               (futKeep, t2) = getQValue stateKey KEEP t1;
               (futSwitch, t3) = getQValue stateKey SWITCH t2;
               bestFuture = max futKeep futSwitch;
               newQ = oldQ + Q_alpha * (reward + Q_gamma * bestFuture - oldQ)
           in s\<lparr>totalReward := totalReward s + reward,
                qTable := setQValue pk pa newQ t3\<rparr>)
      | _ \<Rightarrow> s)"

text \<open>
  The epsilon-greedy choice; \<open>r1\<close> and \<open>r2\<close> are the two draws of \<open>Math.random()\<close>
  (the second is read only when the first is below epsilon).
\<close>

definition chooseAction :: "real \<Rightarrow> real \<Rightarrow> string \<Rightarrow> state \<Rightarrow> action \<times> qtable" where
  "chooseAction r1 r2 stateKey s =
     (if r1 < currentEpsilon s
      then (if r2 < 1 / 2 then KEEP else SWITCH, qTable s)
      else getBestAction stateKey (qTable s))"

text \<open>
  The part of \<open>update\<close> below the comment \<open>Q-Learning Decision\<close>, with the locals it
  reads as parameters.
\<close>

definition qDecision ::
  "real \<Rightarrow> real \<Rightarrow> phase \<Rightarrow> queues \<Rightarrow> real \<Rightarrow> real \<Rightarrow> state \<Rightarrow> state \<times> outcome" where
  "qDecision r1 r2 currentPhase q maxRedNS maxRedEW s =
     (let maxRed = (if currentPhase = PhaseNS then maxRedEW else maxRedNS);
          stateKey = getStateKey (qNS q) (qEW q) maxRed;
          s1 = creditPrevious q maxRedNS maxRedEW stateKey s;
          (act, t) = chooseAction r1 r2 stateKey s1;
          s2 = s1\<lparr>qTable := t,
                 currentEpsilon := max Q_epsilonMin (currentEpsilon s1 * Q_epsilonDecay),
                 prevStateKey := Some stateKey,
                 prevAction := Some act,
                 episodeSteps := episodeSteps s1 + 1\<rparr>
      in if act = SWITCH then (performSwitch s2, QSwitch) else (s2, QKeep))"

text \<open>\<open>update now r1 r2\<close>: \<open>now\<close> is \<open>Date.now()\<close>.\<close>

definition update :: "real \<Rightarrow> real \<Rightarrow> real \<Rightarrow> state \<Rightarrow> state \<times> outcome" where
  "update now r1 r2 s =
     (if \<not> isRunning s \<or> switching s then (s, Idle)
      else if isRunningBaseline (comparisonData s) then (s, Idle)
      else if \<not> isAIEnabled s then (s, Idle)
      else
        (let elapsed = (now - lastSwitchTime s) / 1000;
             q = getQueues (vehicles s);
             maxRedNS = max (redDuration (laneState s N)) (redDuration (laneState s S));
             maxRedEW = max (redDuration (laneState s E)) (redDuration (laneState s W));
             currentPhase = (if NS (signals s) = GREEN then PhaseNS else PhaseEW)
         in if currentPhase = PhaseNS \<and> maxRedEW > starvationThreshold \<and> elapsed \<ge> minGreen
            then (performSwitch (s\<lparr>starvationEvents := starvationEvents s + 1\<rparr>), StarvationSwitch)
            else if currentPhase = PhaseEW \<and> maxRedNS > starvationThreshold \<and> elapsed \<ge> minGreen
            then (performSwitch (s\<lparr>starvationEvents := starvationEvents s + 1\<rparr>), StarvationSwitch)
            else if elapsed < minGreen then (s, MinGreenHold)
            else if elapsed > maxGreen then (performSwitch s, MaxGreenSwitch)
            else qDecision r1 r2 currentPhase q maxRedNS maxRedEW s))"

subsection \<open>The simulation's controls (the file with \<open>btnStart\<close>, \<open>btnReset\<close>, ...)\<close>

definition btnStart :: "real \<Rightarrow> state \<Rightarrow> state" where
  "btnStart now s =
     s\<lparr>isRunning := True, metrics := (metrics s)\<lparr>startTime := now\<rparr>, cleared := 0,
       simElapsedTime := 0, btnStartDisabled := True\<rparr>"

definition btnPause :: "state \<Rightarrow> state" where
  "btnPause s = s\<lparr>isRunning := \<not> isRunning s\<rparr>"

definition btnReset :: "real \<Rightarrow> state \<Rightarrow> state" where
  "btnReset now s =
     s\<lparr>isRunning := False,
       isAIEnabled := False,
       vehicles := [],
       metrics := \<lparr>total = 0, totalWait = 0, throughput = 0, startTime = now\<rparr>,
       cleared := 0,
       simElapsedTime := 0,
       signals := \<lparr>NS = RED, EW = GREEN\<rparr>,
       btnStartDisabled := False,
       emissionsTotal := zeroEmissions\<rparr>"

definition btnAI :: "state \<Rightarrow> state" where
  "btnAI s = s\<lparr>isAIEnabled := \<not> isAIEnabled s\<rparr>"

definition btnNS :: "state \<Rightarrow> state" where
  "btnNS s =
     (if isAIEnabled s then s
      else if NS (signals s) \<noteq> GREEN
      then s\<lparr>signals := (signals s)\<lparr>EW := RED, NS := GREEN\<rparr>\<rparr>
      else s\<lparr>signals := (signals s)\<lparr>NS := RED, EW := GREEN\<rparr>\<rparr>)"

definition btnEW :: "state \<Rightarrow> state" where
  "btnEW s =
     (if isAIEnabled s then s
      else if EW (signals s) \<noteq> GREEN
      then s\<lparr>signals := (signals s)\<lparr>NS := RED, EW := GREEN\<rparr>\<rparr>
      else s\<lparr>signals := (signals s)\<lparr>EW := RED, NS := GREEN\<rparr>\<rparr>)"

text \<open>
  The baseline button: it clicks the start button when the simulation is not running
  (a click on a disabled button does nothing), then calls \<open>startBaseline\<close>.
\<close>

definition btnBaseline :: "real \<Rightarrow> state \<Rightarrow> state" where
  "btnBaseline now s =
     startBaseline (if \<not> isRunning s \<and> \<not> btnStartDisabled s then btnStart now s else s)"

text \<open>
  The state when both scripts have loaded: \<open>t0\<close> is \<open>Date.now()\<close> when the simulation
  script initialises \<open>metrics\<close>, \<open>t1\<close> when the controller is constructed.
\<close>

definition init :: "real \<Rightarrow> real \<Rightarrow> state" where
  "init t0 t1 =
     \<lparr>isRunning = False,
      isAIEnabled = False,
      timeScale = 1,
      vehicles = [],
      signals = \<lparr>NS = RED, EW = GREEN\<rparr>,
      metrics = \<lparr>total = 0, totalWait = 0, throughput = 0, startTime = t0\<rparr>,
      cleared = 0,
      simElapsedTime = 0,
      emissionsTotal = zeroEmissions,
      laneState = (\<lambda>d. \<lparr>redDuration = 0, priority = 0\<rparr>),
      comparisonData = \<lparr>baseline = None, ai = None, isRunningBaseline = False,
                        baselineTimer = 0, baselineDuration = 60,
                        baselinePhaseTimer = 0, baselinePhaseInterval = 30\<rparr>,
      qTable = Map.empty,
      currentEpsilon = Q_epsilon,
      lastSwitchTime = t1,
      lastTickTime = t1,
      totalReward = 0,
      switching = False,
      prevStateKey = None,
      prevAction = None,
      episodeSteps = 0,
      starvationEvents = 0,
      pendingSwitch = None,
      aiTimers = 0,
      btnStartDisabled = False\<rparr>"

subsection \<open>The system as a transition system\<close>

text \<open>
  Everything runs on one thread, one callback at a time. An event is one callback:
  the three timers of the controller that change state (\<open>Tick\<close>, \<open>Update\<close>), the end
  of the clearance sleep (\<open>SwitchDone\<close>), the \<open>setTimeout\<close> of \<open>endBaseline\<close>
  (\<open>AITimer\<close>), the controls, and the animation frame of the simulation. The vehicle
  physics is outside the model: a \<open>Frame\<close> (which also stands for the inject button)
  may leave any vehicles, metrics, cleared count and simulated time behind.
\<close>

datatype event =
    Tick real
  | Update real real real
  | SwitchDone real
  | AITimer
  | Start real
  | Pause
  | Reset real
  | ToggleAI
  | ForceNS
  | ForceEW
  | Baseline real
  | Speed real
  | Frame "vehicle list" metrics nat real

fun step :: "event \<Rightarrow> state \<Rightarrow> state" where
  "step (Tick now) s = tick now s"
| "step (Update now r1 r2) s = fst (update now r1 r2 s)"
| "step (SwitchDone now) s = performSwitchResume now s"
| "step AITimer s = (if aiTimers s > 0 then recordAIMetrics (s\<lparr>aiTimers := aiTimers s - 1\<rparr>) else s)"
| "step (Start now) s = (if btnStartDisabled s then s else btnStart now s)"
| "step Pause s = btnPause s"
| "step (Reset now) s = btnReset now s"
| "step ToggleAI s = btnAI s"
| "step ForceNS s = btnNS s"
| "step ForceEW s = btnEW s"
| "step (Baseline now) s = btnBaseline now s"
| "step (Speed x) s = s\<lparr>timeScale := x\<rparr>"
| "step (Frame vs m c t) s = s\<lparr>vehicles := vs, metrics := m, cleared := c, simElapsedTime := t\<rparr>"

text \<open>The states the system can be in: after any events, from any loading times.\<close>

inductive reachable :: "state \<Rightarrow> bool" where
  reachable_init: "reachable (init t0 t1)"
| reachable_step: "reachable s \<Longrightarrow> reachable (step e s)"

text \<open>A run of events, first to last.\<close>

definition run :: "event list \<Rightarrow> state \<Rightarrow> state" where
  "run es s = foldl (\<lambda>s e. step e s) s es"

subsection \<open>Predicates and example states used by the theorems\<close>

text \<open>
  The invariant of the two signals: they are never both GREEN, and outside a phase
  transition exactly one is GREEN and the other is RED.
\<close>

definition sigInv :: "state \<Rightarrow> bool" where
  "sigInv s \<longleftrightarrow>
     (NS (signals s) \<noteq> GREEN \<or> EW (signals s) \<noteq> GREEN)
     \<and> (\<not> switching s \<longrightarrow>
          (NS (signals s) = GREEN \<and> EW (signals s) = RED)
        \<or> (NS (signals s) = RED \<and> EW (signals s) = GREEN))"

text \<open>Two states agree on what the phase transition reads and writes.\<close>

definition sameSignals :: "state \<Rightarrow> state \<Rightarrow> bool" where
  "sameSignals s s' \<longleftrightarrow>
     signals s' = signals s \<and> switching s' = switching s \<and> pendingSwitch s' = pendingSwitch s"

text \<open>
  Two example states. In the first the simulation was started at time 0, AI mode was
  switched on and one tick ran at 8 s. The second is in the middle of an adaptive
  switch: after the same events, the decision at 8 s explores (first draw 0) and
  draws SWITCH (second draw 3/4).
\<close>

definition preSwitchState :: state where
  "preSwitchState = run [Start 0, ToggleAI, Tick 8000] (init 0 0)"

definition midSwitchState :: state where
  "midSwitchState = run [Start 0, ToggleAI, Tick 8000, Update 8000 0 (3 / 4)] (init 0 0)"

text \<open>
  Two more example states, with AI mode on and a single tick: one at 121 s, when lanes N
  and S have been RED for 121 s, and one at 61 s, when EW has been GREEN for more than
  the maximum green.
\<close>

definition starvedState :: state where
  "starvedState = run [Start 0, ToggleAI, Tick 121000] (init 0 0)"

definition overdueState :: state where
  "overdueState = run [Start 0, ToggleAI, Tick 61000] (init 0 0)"

text \<open>Two states agree on the learning state.\<close>

definition sameLearning :: "state \<Rightarrow> state \<Rightarrow> bool" where
  "sameLearning s s' \<longleftrightarrow>
     qTable s' = qTable s \<and> currentEpsilon s' = currentEpsilon s \<and> totalReward s' = totalReward s
     \<and> prevStateKey s' = prevStateKey s \<and> prevAction s' = prevAction s"

text \<open>
  The state of the numeric scenario of the Q-update: ten waiting vehicles (six on NS,
  four on EW), lanes N and S red for 5 s, a Q-table whose row for the current state
  key has the best value 2, and a pending pair whose row does not exist yet.
\<close>

definition waitingAt :: "dir \<Rightarrow> vehicle" where
  "waitingAt d = \<lparr>origin = d, waiting = True, active = True\<rparr>"

definition scenarioState :: state where
  "scenarioState =
     (init 0 0)\<lparr>isRunning := True, isAIEnabled := True,
       vehicles := [waitingAt N, waitingAt N, waitingAt S, waitingAt N, waitingAt S, waitingAt N,
                    waitingAt E, waitingAt W, waitingAt E, waitingAt E],
       laneState := (\<lambda>d. \<lparr>redDuration = (if d = N \<or> d = S then 5 else 0), priority = 0\<rparr>),
       qTable := [''1_1_0'' \<mapsto> \<lparr>keepQ = 2, switchQ = 1\<rparr>],
       prevStateKey := Some ''0_0_0'', prevAction := Some KEEP\<rparr>"

text \<open>
  The keys \<open>getStateKey\<close> can build: three bin indices, each from 0 to 4, joined by
  underscores. \<open>keyInv\<close> says that the Q-table and the pending state key hold such keys
  only.
\<close>

definition allStateKeys :: "string set" where
  "allStateKeys =
     (\<lambda>(a, b, c). string_of_nat a @ ''_'' @ string_of_nat b @ ''_'' @ string_of_nat c)
       ` ({..4} \<times> {..4} \<times> {..4})"

definition keyInv :: "state \<Rightarrow> bool" where
  "keyInv s \<longleftrightarrow>
     dom (qTable s) \<subseteq> allStateKeys
     \<and> (case prevStateKey s of None \<Rightarrow> True | Some k \<Rightarrow> k \<in> allStateKeys)"

text \<open>
  An example state after one greedy decision at 8 s (first draw 1/2, not below epsilon),
  which creates the row of the current state key.
\<close>

definition greedyState :: state where
  "greedyState = run [Start 0, ToggleAI, Tick 8000, Update 8000 (1 / 2) 0] (init 0 0)"



text \<open>The signals after the baseline's flip in \<open>tick\<close>.\<close>

definition flipped :: "signals \<Rightarrow> signals" where
  "flipped sg = (if NS sg = GREEN then sg\<lparr>NS := RED, EW := GREEN\<rparr> else sg\<lparr>EW := RED, NS := GREEN\<rparr>)"




subsection \<open>Properties of \<open>discretize\<close>\<close>

lemma discretize_loop_le: "discretize_loop v bins n \<le> n - 1"
  by (induction n) auto

lemma discretize_loop_count:
  assumes "sorted bins" and "n \<le> length bins"
  shows "discretize_loop v bins n = length (filter (\<lambda>b. b \<le> v) (take n bins)) - 1"
  using assms(2)
proof (induction n)
  case 0
  then show ?case by simp
next
  case (Suc n)
  then have n: "n < length bins" by simp
  have tk: "take (Suc n) bins = take n bins @ [bins ! n]"
    using n by (simp add: take_Suc_conv_app_nth)
  show ?case
  proof (cases "bins ! n \<le> v")
    case True
    have "\<forall>b \<in> set (take n bins). b \<le> v"
    proof
      fix b assume "b \<in> set (take n bins)"
      then obtain j where j: "j < n" "b = bins ! j"
        using n by (auto simp: in_set_conv_nth)
      have "bins ! j \<le> bins ! n"
        using assms(1) j(1) n by (simp add: sorted_nth_mono)
      with True j show "b \<le> v" by simp
    qed
    then have "filter (\<lambda>b. b \<le> v) (take n bins) = take n bins"
      by (simp add: filter_id_conv)
    with True tk n show ?thesis by simp
  next
    case False
    with tk Suc show ?thesis by simp
  qed
qed

lemma discretize_loop_mono:
  "v \<le> w \<Longrightarrow> discretize_loop v bins n \<le> discretize_loop w bins n"
proof (induction n)
  case 0
  then show ?case by simp
next
  case (Suc n)
  have "discretize_loop v bins n \<le> n"
    using discretize_loop_le [of v bins n] by simp
  with Suc show ?case by auto
qed

text \<open>
  C7, as the code has it. \<open>discretize\<close> is a function of its two arguments. For ascending
  thresholds its result is one less than the number of thresholds that are at most the
  value (and 0 when there is none: the subtraction on \<open>nat\<close> stops at 0), and for every
  list of thresholds the result does not decrease when the value grows.
\<close>

theorem discretize_count_minus_one_and_mono:
  "(sorted bins \<longrightarrow> discretize v bins = length (filter (\<lambda>b. b \<le> v) bins) - 1)
   \<and> (v \<le> w \<longrightarrow> discretize v bins \<le> discretize w bins)"
  using discretize_loop_count [of bins "length bins" v] discretize_loop_mono [of v w bins "length bins"]
  by (simp add: discretize_def)

theorem discretize_count_minus_one_and_mono_witness:
  "sorted queueBins \<and> discretize 5 queueBins = length (filter (\<lambda>b. b \<le> 5) queueBins) - 1
   \<and> (5::real) \<le> 12 \<and> discretize 5 queueBins \<le> discretize 12 queueBins"
  using discretize_count_minus_one_and_mono [of queueBins 5 12]
  by (simp add: queueBins_def)

text \<open>
  C7 as the specification words it fails: with the thresholds 0, 3, 7, 12, 20 the value 5
  falls in bin 1, while two thresholds (0 and 3) are at most 5.
\<close>

theorem discretize_not_count_counterexample:
  "discretize 5 queueBins = 1 \<and> length (filter (\<lambda>b. b \<le> 5) queueBins) = 2"
  by (simp add: discretize_def queueBins_def eval_nat_numeral)

subsection \<open>The signal invariant\<close>

lemma creditPrevious_signals [simp]:
  "signals (creditPrevious q a b k s) = signals s"
  "switching (creditPrevious q a b k s) = switching s"
  "pendingSwitch (creditPrevious q a b k s) = pendingSwitch s"
  by (simp_all add: creditPrevious_def Let_def split: option.splits prod.splits)

lemma performSwitch_same: "sameSignals s s0 \<Longrightarrow> sameSignals (performSwitch s) (performSwitch s0)"
  by (simp add: sameSignals_def performSwitch_def)

lemma qDecision_signals:
  "sameSignals s (fst (qDecision r1 r2 ph q a b s)) \<or> sameSignals (performSwitch s) (fst (qDecision r1 r2 ph q a b s))"
  by (simp add: qDecision_def Let_def split_beta sameSignals_def performSwitch_def)

lemma sameSignals_refl [simp]: "sameSignals s s"
  by (simp add: sameSignals_def)

lemma sameSignals_starvation [simp]:
  "sameSignals (performSwitch s) (performSwitch (s\<lparr>starvationEvents := n\<rparr>))"
  by (simp add: sameSignals_def performSwitch_def)

lemma update_signals:
  "sameSignals s (fst (update now r1 r2 s)) \<or> sameSignals (performSwitch s) (fst (update now r1 r2 s))"
  by (simp add: update_def Let_def qDecision_signals)

lemma sigInv_performSwitch: "sigInv s \<Longrightarrow> sigInv (performSwitch s)"
  by (auto simp: sigInv_def performSwitch_def)

lemma sigInv_performSwitchResume: "sigInv s \<Longrightarrow> sigInv (performSwitchResume now s)"
  by (auto simp: sigInv_def performSwitchResume_def split: option.splits phase.splits)

lemma sigInv_same: "sameSignals s s' \<Longrightarrow> sigInv s \<Longrightarrow> sigInv s'"
  by (simp add: sigInv_def sameSignals_def)

lemma sigInv_update: "sigInv s \<Longrightarrow> sigInv (fst (update now r1 r2 s))"
  using update_signals [of s now r1 r2] sigInv_performSwitch [of s] sigInv_same
  by blast


lemma endBaseline_signals [simp]:
  "signals (endBaseline s) = signals s"
  "switching (endBaseline s) = switching s"
  "pendingSwitch (endBaseline s) = pendingSwitch s"
  by (simp_all add: endBaseline_def Let_def)

lemma sigInv_baselineTick: "sigInv s \<Longrightarrow> sigInv (baselineTick e s)"
  unfolding baselineTick_def Let_def
  by (simp add: sigInv_def)

lemma sigInv_tick_fields:
  "sigInv (s\<lparr>lastTickTime := a, emissionsTotal := b, laneState := c\<rparr>) = sigInv s"
  by (simp add: sigInv_def)

lemma sigInv_tick: "sigInv s \<Longrightarrow> sigInv (tick now s)"
  by (simp add: tick_def Let_def sigInv_baselineTick sigInv_tick_fields)

lemma sigInv_startBaseline: "sigInv s \<Longrightarrow> sigInv (startBaseline s)"
  by (simp add: sigInv_def startBaseline_def)

lemma sigInv_btnStart [simp]: "sigInv (btnStart now s) = sigInv s"
  by (simp add: sigInv_def btnStart_def)

lemma sigInv_step: "sigInv s \<Longrightarrow> sigInv (step e s)"
proof (cases e)
  case (Tick x) then show "sigInv s \<Longrightarrow> ?thesis" by (simp add: sigInv_tick)
next
  case (Update a b c) then show "sigInv s \<Longrightarrow> ?thesis" by (simp add: sigInv_update)
next
  case (SwitchDone x) then show "sigInv s \<Longrightarrow> ?thesis" by (simp add: sigInv_performSwitchResume)
next
  case AITimer then show "sigInv s \<Longrightarrow> ?thesis" by (simp add: sigInv_def recordAIMetrics_def Let_def)
next
  case (Start x) then show "sigInv s \<Longrightarrow> ?thesis" by simp
next
  case Pause then show "sigInv s \<Longrightarrow> ?thesis" by (simp add: sigInv_def btnPause_def)
next
  case (Reset x) then show "sigInv s \<Longrightarrow> ?thesis" by (simp add: sigInv_def btnReset_def)
next
  case ToggleAI then show "sigInv s \<Longrightarrow> ?thesis" by (simp add: sigInv_def btnAI_def)
next
  case ForceNS then show "sigInv s \<Longrightarrow> ?thesis" by (simp add: sigInv_def btnNS_def)
next
  case ForceEW then show "sigInv s \<Longrightarrow> ?thesis" by (simp add: sigInv_def btnEW_def)
next
  case (Baseline x) then show "sigInv s \<Longrightarrow> ?thesis" by (simp add: btnBaseline_def sigInv_startBaseline)
next
  case (Speed x) then show "sigInv s \<Longrightarrow> ?thesis" by (simp add: sigInv_def)
next
  case (Frame a b c d) then show "sigInv s \<Longrightarrow> ?thesis" by (simp add: sigInv_def)
qed

lemma sigInv_reachable: "reachable s \<Longrightarrow> sigInv s"
proof (induction rule: reachable.induct)
  case (reachable_init t0 t1)
  show ?case by (simp add: sigInv_def init_def)
next
  case (reachable_step s e)
  then show ?case by (simp add: sigInv_step)
qed


lemmas handler_defs = tick_def baselineTick_def endBaseline_def update_def qDecision_def
  creditPrevious_def chooseAction_def getBestAction_def getQValue_def setQValue_def
  getStateKey_def discretize_def performSwitch_def performSwitchResume_def
  btnStart_def btnAI_def btnNS_def btnEW_def btnReset_def btnPause_def btnBaseline_def startBaseline_def
  init_def getQueues_def tickEmissions_def advanceRedDurations_def calcPriorities_def laneSignal_def
  zeroEmissions_def zeroRow_def readRow_def writeRow_def
  queueBins_def redBins_def starvationThreshold_def minGreen_def maxGreen_def
  Q_alpha_def Q_gamma_def Q_epsilon_def Q_epsilonDecay_def Q_epsilonMin_def FAIR_alpha_def FAIR_beta_def
  string_of_nat.simps digit_char_def Let_def run_def waitingAt_def

lemma reachable_run: "reachable s \<Longrightarrow> reachable (run es s)"
proof (induction es arbitrary: s)
  case Nil
  then show ?case by (simp add: run_def)
next
  case (Cons e es)
  have "run (e # es) s = run es (step e s)" by (simp add: run_def)
  with Cons show ?case by (simp add: reachable_step)
qed

subsection \<open>Mutual exclusion of the two greens\<close>

text \<open>
  C1. In every reachable state (the initial state, and after any adaptive switch,
  baseline flip, manual force button, reset or any other event, in any order) the
  signals NS and EW are not both GREEN.
\<close>

theorem never_both_green:
  "reachable s \<Longrightarrow> \<not> (NS (signals s) = GREEN \<and> EW (signals s) = GREEN)"
  using sigInv_reachable [of s] by (auto simp: sigInv_def)

theorem never_both_green_witness:
  "reachable midSwitchState \<and> signals midSwitchState = \<lparr>NS = RED, EW = YELLOW\<rparr>
   \<and> \<not> (NS (signals midSwitchState) = GREEN \<and> EW (signals midSwitchState) = GREEN)"
proof -
  have r: "reachable midSwitchState"
    unfolding midSwitchState_def by (rule reachable_run) (rule reachable_init)
  have "signals midSwitchState = \<lparr>NS = RED, EW = YELLOW\<rparr>"
    unfolding midSwitchState_def by (simp add: handler_defs)
  with r never_both_green [OF r] show ?thesis by simp
qed

subsection \<open>The baseline comparison\<close>

text \<open>
  C9. \<open>startBaseline\<close> while a baseline run is active returns at once: the whole
  state (accumulators, timers, signals, metrics, \<open>isAIEnabled\<close>) is as it was.
\<close>

theorem startBaseline_noop_when_running:
  "isRunningBaseline (comparisonData s) \<Longrightarrow> startBaseline s = s"
  by (simp add: startBaseline_def)

theorem startBaseline_noop_when_running_witness:
  "isRunningBaseline (comparisonData (step (Baseline 0) (init 0 0)))
   \<and> startBaseline (step (Baseline 0) (init 0 0)) = step (Baseline 0) (init 0 0)"
proof -
  have h: "isRunningBaseline (comparisonData (step (Baseline 0) (init 0 0)))"
    by (simp add: handler_defs)
  show ?thesis using h startBaseline_noop_when_running [OF h] by simp
qed

subsection \<open>The reset control\<close>

text \<open>
  C4, as the code has it. The reset control clears the emissions and metrics
  accumulators (and the vehicles and the cleared count) and leaves the learned Q-table
  unchanged. It does not touch the per-lane state or the episode memory: the red
  durations and priorities, \<open>prevStateKey\<close>, \<open>prevAction\<close>, the total reward and
  epsilon are the controller's own and keep their values.
\<close>

theorem reset_effect:
  "emissionsTotal (btnReset now s) = zeroEmissions
   \<and> metrics (btnReset now s) = \<lparr>total = 0, totalWait = 0, throughput = 0, startTime = now\<rparr>
   \<and> cleared (btnReset now s) = 0
   \<and> vehicles (btnReset now s) = []
   \<and> qTable (btnReset now s) = qTable s
   \<and> laneState (btnReset now s) = laneState s
   \<and> prevStateKey (btnReset now s) = prevStateKey s
   \<and> prevAction (btnReset now s) = prevAction s
   \<and> totalReward (btnReset now s) = totalReward s
   \<and> currentEpsilon (btnReset now s) = currentEpsilon s"
  by (simp add: btnReset_def)

text \<open>
  C4 as the specification words it fails: after a reset in the middle of an adaptive
  switch, lane N still has its 8 s of red and the pending (state, action) pair is still
  there.
\<close>

theorem reset_keeps_lanes_and_memory_counterexample:
  "redDuration (laneState midSwitchState N) = 8
   \<and> redDuration (laneState (btnReset 9000 midSwitchState) N) = 8
   \<and> prevStateKey (btnReset 9000 midSwitchState) = Some ''0_0_0''
   \<and> prevAction (btnReset 9000 midSwitchState) = Some SWITCH"
  unfolding midSwitchState_def by (simp add: handler_defs)

subsection \<open>Yellow before green\<close>

text \<open>
  C3, as the code has it. A decision tick never turns an axis GREEN itself: the only
  change it makes to the signals is the first part of \<open>performSwitch\<close>. An adaptive
  switch that starts with no switch in flight first sets the outgoing axis (the one that
  is GREEN) to YELLOW while the incoming axis stays RED, and only the part after the
  clearance sleep sets the outgoing axis to RED and the incoming axis to GREEN. The
  manual force buttons (with AI mode off) and the baseline's flip in \<open>tick\<close> are direct:
  they swap RED and GREEN in one step, with no YELLOW.
\<close>

theorem adaptive_switch_yellow_first:
  assumes "reachable s"
  shows "(NS (signals (fst (update now r1 r2 s))) = GREEN \<longrightarrow> NS (signals s) = GREEN)
   \<and> (EW (signals (fst (update now r1 r2 s))) = GREEN \<longrightarrow> EW (signals s) = GREEN)
   \<and> (\<not> switching s \<and> NS (signals s) = GREEN \<longrightarrow>
        signals (performSwitch s) = \<lparr>NS = YELLOW, EW = RED\<rparr>
        \<and> signals (performSwitchResume t (performSwitch s)) = \<lparr>NS = RED, EW = GREEN\<rparr>)
   \<and> (\<not> switching s \<and> NS (signals s) \<noteq> GREEN \<longrightarrow>
        signals (performSwitch s) = \<lparr>NS = RED, EW = YELLOW\<rparr>
        \<and> signals (performSwitchResume t (performSwitch s)) = \<lparr>NS = GREEN, EW = RED\<rparr>)
   \<and> (\<not> isAIEnabled s \<longrightarrow>
        signals (btnNS s) = (if NS (signals s) = GREEN then \<lparr>NS = RED, EW = GREEN\<rparr>
                             else \<lparr>NS = GREEN, EW = RED\<rparr>)
        \<and> signals (btnEW s) = (if EW (signals s) = GREEN then \<lparr>NS = GREEN, EW = RED\<rparr>
                               else \<lparr>NS = RED, EW = GREEN\<rparr>))
   \<and> (signals (tick now s) = signals s \<or> signals (tick now s) = flipped (signals s))"
proof -
  have inv: "sigInv s" using assms by (rule sigInv_reachable)
  have d: "\<not> isAIEnabled s \<longrightarrow>
        signals (btnNS s) = (if NS (signals s) = GREEN then \<lparr>NS = RED, EW = GREEN\<rparr>
                             else \<lparr>NS = GREEN, EW = RED\<rparr>)
        \<and> signals (btnEW s) = (if EW (signals s) = GREEN then \<lparr>NS = GREEN, EW = RED\<rparr>
                               else \<lparr>NS = RED, EW = GREEN\<rparr>)"
    by (simp add: btnNS_def btnEW_def)
  have e: "signals (tick now s) = signals s \<or> signals (tick now s) = flipped (signals s)"
    by (simp add: tick_def baselineTick_def Let_def flipped_def)
  have u: "sameSignals s (fst (update now r1 r2 s)) \<or> sameSignals (performSwitch s) (fst (update now r1 r2 s))"
    by (rule update_signals)
  have p: "NS (signals (performSwitch s)) = GREEN \<longrightarrow> NS (signals s) = GREEN"
          "EW (signals (performSwitch s)) = GREEN \<longrightarrow> EW (signals s) = GREEN"
    by (simp_all add: performSwitch_def)
  have a: "(NS (signals (fst (update now r1 r2 s))) = GREEN \<longrightarrow> NS (signals s) = GREEN)
   \<and> (EW (signals (fst (update now r1 r2 s))) = GREEN \<longrightarrow> EW (signals s) = GREEN)"
    using u p by (auto simp: sameSignals_def)
  have b: "\<not> switching s \<and> NS (signals s) = GREEN \<longrightarrow>
        signals (performSwitch s) = \<lparr>NS = YELLOW, EW = RED\<rparr>
        \<and> signals (performSwitchResume t (performSwitch s)) = \<lparr>NS = RED, EW = GREEN\<rparr>"
    using inv by (auto simp: sigInv_def performSwitch_def performSwitchResume_def)
  have c: "\<not> switching s \<and> NS (signals s) \<noteq> GREEN \<longrightarrow>
        signals (performSwitch s) = \<lparr>NS = RED, EW = YELLOW\<rparr>
        \<and> signals (performSwitchResume t (performSwitch s)) = \<lparr>NS = GREEN, EW = RED\<rparr>"
    using inv by (auto simp: sigInv_def performSwitch_def performSwitchResume_def)
  from a b c d e show ?thesis by blast
qed

theorem adaptive_switch_yellow_first_witness:
  "reachable preSwitchState \<and> \<not> switching preSwitchState
   \<and> signals preSwitchState = \<lparr>NS = RED, EW = GREEN\<rparr>
   \<and> signals (fst (update 8000 0 (3 / 4) preSwitchState)) = \<lparr>NS = RED, EW = YELLOW\<rparr>
   \<and> signals (performSwitch preSwitchState) = \<lparr>NS = RED, EW = YELLOW\<rparr>
   \<and> signals (performSwitchResume 10000 (performSwitch preSwitchState)) = \<lparr>NS = GREEN, EW = RED\<rparr>"
proof -
  have r: "reachable preSwitchState"
    unfolding preSwitchState_def by (rule reachable_run) (rule reachable_init)
  have e: "\<not> switching preSwitchState" "signals preSwitchState = \<lparr>NS = RED, EW = GREEN\<rparr>"
    "signals (fst (update 8000 0 (3 / 4) preSwitchState)) = \<lparr>NS = RED, EW = YELLOW\<rparr>"
    unfolding preSwitchState_def by (simp_all add: handler_defs)
  show ?thesis
    using r e adaptive_switch_yellow_first [OF r, of 8000 0 "3 / 4" 10000] by simp
qed

text \<open>
  C3 as the specification words it fails: from the initial state the manual button for
  NS turns NS GREEN and EW RED in one step, and the baseline's fixed-interval flip at
  30 s turns EW GREEN and NS RED in one tick; neither sets YELLOW.
\<close>

theorem direct_flip_counterexample:
  "signals (init 0 0) = \<lparr>NS = RED, EW = GREEN\<rparr>
   \<and> signals (step ForceNS (init 0 0)) = \<lparr>NS = GREEN, EW = RED\<rparr>
   \<and> signals (run [Baseline 0, Tick 29000] (init 0 0)) = \<lparr>NS = GREEN, EW = RED\<rparr>
   \<and> signals (run [Baseline 0, Tick 29000, Tick 30000] (init 0 0)) = \<lparr>NS = RED, EW = GREEN\<rparr>"
  by (simp add: handler_defs)

subsection \<open>Forced switches and the learning state\<close>

lemma performSwitch_learning [simp]:
  "qTable (performSwitch s) = qTable s"
  "currentEpsilon (performSwitch s) = currentEpsilon s"
  "totalReward (performSwitch s) = totalReward s"
  "prevStateKey (performSwitch s) = prevStateKey s"
  "prevAction (performSwitch s) = prevAction s"
  "starvationEvents (performSwitch s) = starvationEvents s"
  by (simp_all add: performSwitch_def)

lemma creditPrevious_fields [simp]:
  "currentEpsilon (creditPrevious q a b k s) = currentEpsilon s"
  "prevStateKey (creditPrevious q a b k s) = prevStateKey s"
  "prevAction (creditPrevious q a b k s) = prevAction s"
  by (simp_all add: creditPrevious_def Let_def split: option.splits prod.splits)

lemma qDecision_outcome:
  "snd (qDecision r1 r2 ph q a b s) = QKeep \<or> snd (qDecision r1 r2 ph q a b s) = QSwitch"
  by (simp add: qDecision_def Let_def split_beta)

lemma qDecision_not_keep:
  "(snd (qDecision r1 r2 ph q a b s) \<noteq> QKeep) = (snd (qDecision r1 r2 ph q a b s) = QSwitch)"
  using qDecision_outcome [of r1 r2 ph q a b s] by auto

lemma qDecision_learning:
  "currentEpsilon (fst (qDecision r1 r2 ph q a b s)) = max Q_epsilonMin (currentEpsilon s * Q_epsilonDecay)
   \<and> prevStateKey (fst (qDecision r1 r2 ph q a b s))
       = Some (getStateKey (qNS q) (qEW q) (if ph = PhaseNS then b else a))
   \<and> prevAction (fst (qDecision r1 r2 ph q a b s))
       = Some (if snd (qDecision r1 r2 ph q a b s) = QSwitch then SWITCH else KEEP)"
  by (cases "fst (chooseAction r1 r2 (getStateKey (qNS q) (qEW q) (if ph = PhaseNS then b else a))
        (creditPrevious q a b (getStateKey (qNS q) (qEW q) (if ph = PhaseNS then b else a)) s))")
     (simp_all add: qDecision_def Let_def split_beta)

lemma sameLearning_simps [simp]:
  "sameLearning s s"
  "sameLearning s (performSwitch s)"
  "sameLearning s (performSwitch (s\<lparr>starvationEvents := n\<rparr>))"
  by (simp_all add: sameLearning_def)

lemma update_shape:
  "update now r1 r2 s = (s, Idle)
   \<or> update now r1 r2 s = (performSwitch (s\<lparr>starvationEvents := starvationEvents s + 1\<rparr>), StarvationSwitch)
   \<or> update now r1 r2 s = (s, MinGreenHold)
   \<or> update now r1 r2 s = (performSwitch s, MaxGreenSwitch)
   \<or> update now r1 r2 s = qDecision r1 r2 PhaseNS (getQueues (vehicles s))
         (max (redDuration (laneState s N)) (redDuration (laneState s S)))
         (max (redDuration (laneState s E)) (redDuration (laneState s W))) s
   \<or> update now r1 r2 s = qDecision r1 r2 PhaseEW (getQueues (vehicles s))
         (max (redDuration (laneState s N)) (redDuration (laneState s S)))
         (max (redDuration (laneState s E)) (redDuration (laneState s W))) s"
  by (simp add: update_def Let_def)

lemma update_not_learned:
  "snd (update now r1 r2 s) \<noteq> QKeep \<and> snd (update now r1 r2 s) \<noteq> QSwitch
   \<longrightarrow> sameLearning s (fst (update now r1 r2 s))"
  using update_shape [of now r1 r2 s]
  by (elim disjE) (auto simp: qDecision_not_keep)

subsection \<open>The starvation override\<close>

text \<open>
  C2. In a reachable state with the simulation running, AI mode on, no baseline run and
  no switch in flight: when the axis that is RED has a lane whose red duration exceeds
  the starvation threshold (120 s) and the time since the last switch is at least the
  minimum green (7 s), the decision tick takes the starvation branch, whatever the two
  random draws and the Q-table are. It increments \<open>starvationEvents\<close> by one and calls
  \<open>performSwitch\<close>, which starts the transition: the flag is set and the GREEN axis
  turns YELLOW.
\<close>

theorem starvation_forces_switch:
  assumes "reachable s" and "isRunning s" and "isAIEnabled s"
    and "\<not> isRunningBaseline (comparisonData s)" and "\<not> switching s"
    and "(NS (signals s) = RED
            \<and> max (redDuration (laneState s N)) (redDuration (laneState s S)) > starvationThreshold)
         \<or> (EW (signals s) = RED
            \<and> max (redDuration (laneState s E)) (redDuration (laneState s W)) > starvationThreshold)"
    and "(now - lastSwitchTime s) / 1000 \<ge> minGreen"
  shows "update now r1 r2 s
           = (performSwitch (s\<lparr>starvationEvents := starvationEvents s + 1\<rparr>), StarvationSwitch)
     \<and> starvationEvents (fst (update now r1 r2 s)) = starvationEvents s + 1
     \<and> switching (fst (update now r1 r2 s))
     \<and> pendingSwitch (fst (update now r1 r2 s))
          = Some (if NS (signals s) = GREEN then PhaseNS else PhaseEW)
     \<and> signals (fst (update now r1 r2 s))
          = (if NS (signals s) = GREEN then \<lparr>NS = YELLOW, EW = RED\<rparr> else \<lparr>NS = RED, EW = YELLOW\<rparr>)"
proof -
  have inv: "sigInv s" using assms(1) by (rule sigInv_reachable)
  have sg: "(NS (signals s) = GREEN \<and> EW (signals s) = RED) \<or> (NS (signals s) = RED \<and> EW (signals s) = GREEN)"
    using inv assms(5) by (simp add: sigInv_def)
  have u: "update now r1 r2 s
           = (performSwitch (s\<lparr>starvationEvents := starvationEvents s + 1\<rparr>), StarvationSwitch)"
    using assms(2-7) sg by (auto simp: update_def Let_def)
  show ?thesis
    unfolding u using assms(5) sg by (auto simp: performSwitch_def)
qed

theorem starvation_forces_switch_witness:
  "reachable starvedState \<and> isRunning starvedState \<and> isAIEnabled starvedState
   \<and> \<not> isRunningBaseline (comparisonData starvedState) \<and> \<not> switching starvedState
   \<and> NS (signals starvedState) = RED
   \<and> max (redDuration (laneState starvedState N)) (redDuration (laneState starvedState S)) = 121
   \<and> (121000 - lastSwitchTime starvedState) / 1000 = 121
   \<and> starvationEvents starvedState = 0
   \<and> snd (update 121000 0 0 starvedState) = StarvationSwitch
   \<and> starvationEvents (fst (update 121000 0 0 starvedState)) = 1
   \<and> switching (fst (update 121000 0 0 starvedState))
   \<and> signals (fst (update 121000 0 0 starvedState)) = \<lparr>NS = RED, EW = YELLOW\<rparr>"
proof -
  have r: "reachable starvedState"
    unfolding starvedState_def by (rule reachable_run) (rule reachable_init)
  have e: "isRunning starvedState" "isAIEnabled starvedState"
    "\<not> isRunningBaseline (comparisonData starvedState)" "\<not> switching starvedState"
    "NS (signals starvedState) = RED"
    "max (redDuration (laneState starvedState N)) (redDuration (laneState starvedState S)) = 121"
    "(121000 - lastSwitchTime starvedState) / 1000 = 121"
    "starvationEvents starvedState = 0"
    unfolding starvedState_def by (simp_all add: handler_defs)
  have h: "(NS (signals starvedState) = RED
            \<and> max (redDuration (laneState starvedState N)) (redDuration (laneState starvedState S)) > starvationThreshold)
         \<or> (EW (signals starvedState) = RED
            \<and> max (redDuration (laneState starvedState E)) (redDuration (laneState starvedState W)) > starvationThreshold)"
    using e by (simp add: starvationThreshold_def)
  have m: "(121000 - lastSwitchTime starvedState) / 1000 \<ge> minGreen"
    using e by (simp add: minGreen_def)
  note t = starvation_forces_switch [OF r e(1) e(2) e(3) e(4) h m, of 0 0]
  have c1: "snd (update 121000 0 0 starvedState) = StarvationSwitch"
    using t by simp
  have c2: "starvationEvents (fst (update 121000 0 0 starvedState)) = 1"
    using t e(8) by linarith
  have c3: "switching (fst (update 121000 0 0 starvedState))"
    using t by blast
  have c4: "signals (fst (update 121000 0 0 starvedState)) = \<lparr>NS = RED, EW = YELLOW\<rparr>"
    using t e(5) by auto
  show ?thesis
    using r e c1 c2 c3 c4 by blast
qed

subsection \<open>The Q-learning update\<close>

lemma getQValue_read_after_get [simp]:
  "fst (getQValue k a (snd (getQValue k' a' t))) = fst (getQValue k a t)"
  by (simp add: getQValue_def split: option.splits)

lemma getBestAction_read [simp]:
  "fst (getQValue k a (snd (getBestAction k' t))) = fst (getQValue k a t)"
  by (simp add: getBestAction_def split_beta)

lemma chooseAction_read [simp]:
  "fst (getQValue k a (snd (chooseAction r1 r2 k' s))) = fst (getQValue k a (qTable s))"
  by (simp add: chooseAction_def)

lemma getQValue_after_set:
  "fst (getQValue k a (setQValue k a v t)) = v"
  by (cases a) (simp_all add: getQValue_def setQValue_def readRow_def writeRow_def split: option.splits)

lemma creditPrevious_credit:
  assumes "prevStateKey s = Some pk" and "prevAction s = Some pa"
  shows "fst (getQValue pk pa (qTable (creditPrevious q a b k s)))
         = fst (getQValue pk pa (qTable s))
           + Q_alpha * (- real (qNS q + qEW q) + - \<bar>a - b\<bar> * (1 / 10)
                        + Q_gamma * max (fst (getQValue k KEEP (qTable s))) (fst (getQValue k SWITCH (qTable s)))
                        - fst (getQValue pk pa (qTable s)))"
    and "totalReward (creditPrevious q a b k s)
         = totalReward s + (- real (qNS q + qEW q) + - \<bar>a - b\<bar> * (1 / 10))"
  using assms
  by (simp_all add: creditPrevious_def Let_def split_beta getQValue_after_set)

lemma qDecision_qTable:
  "fst (getQValue k a (qTable (fst (qDecision r1 r2 ph q x y s))))
   = fst (getQValue k a (qTable (creditPrevious q x y (getStateKey (qNS q) (qEW q) (if ph = PhaseNS then y else x)) s)))"
  "totalReward (fst (qDecision r1 r2 ph q x y s))
   = totalReward (creditPrevious q x y (getStateKey (qNS q) (qEW q) (if ph = PhaseNS then y else x)) s)"
  by (simp_all add: qDecision_def Let_def split_beta performSwitch_def)


lemma update_learned_eq:
  "snd (update now r1 r2 s) = QKeep \<or> snd (update now r1 r2 s) = QSwitch \<Longrightarrow>
   update now r1 r2 s
   = qDecision r1 r2 (if NS (signals s) = GREEN then PhaseNS else PhaseEW) (getQueues (vehicles s))
       (max (redDuration (laneState s N)) (redDuration (laneState s S)))
       (max (redDuration (laneState s E)) (redDuration (laneState s W))) s"
  by (simp add: update_def Let_def split: if_splits)

text \<open>
  C6. One Q-learning update on a tick that reaches the Q-agent, with ten waiting
  vehicles (\<open>totalWaiting = 10\<close>), a difference of 5 s between the two axes' maximal
  red durations (\<open>fairnessBonus = -0.5\<close>, so the reward is -10.5), \<open>oldQ = 0\<close> for the
  pending pair and \<open>bestFuture = 2\<close> for the current state key: with alpha = 0.15 and
  gamma = 0.9 the pending pair's value becomes 0 + 0.15 * (-10.5 + 0.9 * 2 - 0) = -1.305,
  and the total reward drops by 10.5.
\<close>

theorem q_update_scenario:
  assumes "snd (update now r1 r2 s) = QKeep \<or> snd (update now r1 r2 s) = QSwitch"
    and "prevStateKey s = Some pk" and "prevAction s = Some pa"
    and "qNS (getQueues (vehicles s)) + qEW (getQueues (vehicles s)) = 10"
    and "\<bar>max (redDuration (laneState s N)) (redDuration (laneState s S))
          - max (redDuration (laneState s E)) (redDuration (laneState s W))\<bar> = 5"
    and "fst (getQValue pk pa (qTable s)) = 0"
    and "stateKey = getStateKey (qNS (getQueues (vehicles s))) (qEW (getQueues (vehicles s)))
           (if NS (signals s) = GREEN
            then max (redDuration (laneState s E)) (redDuration (laneState s W))
            else max (redDuration (laneState s N)) (redDuration (laneState s S)))"
    and "max (fst (getQValue stateKey KEEP (qTable s))) (fst (getQValue stateKey SWITCH (qTable s))) = 2"
  shows "fst (getQValue pk pa (qTable (fst (update now r1 r2 s)))) = - 1305 / 1000
     \<and> totalReward (fst (update now r1 r2 s)) = totalReward s - 105 / 10"
proof -
  let ?q = "getQueues (vehicles s)"
  let ?x = "max (redDuration (laneState s N)) (redDuration (laneState s S))"
  let ?y = "max (redDuration (laneState s E)) (redDuration (laneState s W))"
  let ?ph = "if NS (signals s) = GREEN then PhaseNS else PhaseEW"
  let ?k = "getStateKey (qNS ?q) (qEW ?q) (if ?ph = PhaseNS then ?y else ?x)"
  have u: "update now r1 r2 s = qDecision r1 r2 ?ph ?q ?x ?y s"
    using assms(1) by (rule update_learned_eq)
  have k: "stateKey = ?k"
    using assms(7) by simp
  have "fst (getQValue pk pa (qTable (fst (update now r1 r2 s))))
        = 0 + Q_alpha * (- real (10::nat) + - 5 * (1 / 10) + Q_gamma * 2 - 0)"
    unfolding u qDecision_qTable creditPrevious_credit(1) [OF assms(2,3)]
    using assms(4,5,6,8) k by simp
  moreover have "totalReward (fst (update now r1 r2 s)) = totalReward s + (- real (10::nat) + - 5 * (1 / 10))"
    unfolding u qDecision_qTable creditPrevious_credit(2) [OF assms(2,3)]
    using assms(4,5) by simp
  ultimately show ?thesis
    by (simp add: Q_alpha_def Q_gamma_def)
qed


theorem q_update_scenario_witness:
  "snd (update 8000 (1 / 2) 0 scenarioState) = QKeep
   \<and> prevStateKey scenarioState = Some ''0_0_0'' \<and> prevAction scenarioState = Some KEEP
   \<and> qNS (getQueues (vehicles scenarioState)) + qEW (getQueues (vehicles scenarioState)) = 10
   \<and> \<bar>max (redDuration (laneState scenarioState N)) (redDuration (laneState scenarioState S))
        - max (redDuration (laneState scenarioState E)) (redDuration (laneState scenarioState W))\<bar> = 5
   \<and> fst (getQValue ''0_0_0'' KEEP (qTable scenarioState)) = 0
   \<and> ''1_1_0'' = getStateKey (qNS (getQueues (vehicles scenarioState))) (qEW (getQueues (vehicles scenarioState)))
           (if NS (signals scenarioState) = GREEN
            then max (redDuration (laneState scenarioState E)) (redDuration (laneState scenarioState W))
            else max (redDuration (laneState scenarioState N)) (redDuration (laneState scenarioState S)))
   \<and> max (fst (getQValue ''1_1_0'' KEEP (qTable scenarioState)))
          (fst (getQValue ''1_1_0'' SWITCH (qTable scenarioState))) = 2
   \<and> fst (getQValue ''0_0_0'' KEEP (qTable (fst (update 8000 (1 / 2) 0 scenarioState)))) = - 1305 / 1000
   \<and> totalReward (fst (update 8000 (1 / 2) 0 scenarioState)) = - 105 / 10"
proof -
  have h1: "snd (update 8000 (1 / 2) 0 scenarioState) = QKeep"
    unfolding scenarioState_def by (simp add: handler_defs)
  have h2: "prevStateKey scenarioState = Some ''0_0_0''" "prevAction scenarioState = Some KEEP"
    unfolding scenarioState_def by (simp_all add: handler_defs)
  have h4: "qNS (getQueues (vehicles scenarioState)) + qEW (getQueues (vehicles scenarioState)) = 10"
    unfolding scenarioState_def by (simp add: handler_defs)
  have h5: "\<bar>max (redDuration (laneState scenarioState N)) (redDuration (laneState scenarioState S))
        - max (redDuration (laneState scenarioState E)) (redDuration (laneState scenarioState W))\<bar> = 5"
    unfolding scenarioState_def by (simp add: handler_defs)
  have h6: "fst (getQValue ''0_0_0'' KEEP (qTable scenarioState)) = 0"
    unfolding scenarioState_def by (simp add: handler_defs)
  have h7: "''1_1_0'' = getStateKey (qNS (getQueues (vehicles scenarioState))) (qEW (getQueues (vehicles scenarioState)))
           (if NS (signals scenarioState) = GREEN
            then max (redDuration (laneState scenarioState E)) (redDuration (laneState scenarioState W))
            else max (redDuration (laneState scenarioState N)) (redDuration (laneState scenarioState S)))"
    unfolding scenarioState_def by (simp add: handler_defs)
  have h8: "max (fst (getQValue ''1_1_0'' KEEP (qTable scenarioState)))
          (fst (getQValue ''1_1_0'' SWITCH (qTable scenarioState))) = 2"
    unfolding scenarioState_def by (simp add: handler_defs)
  have h0: "totalReward scenarioState = 0"
    unfolding scenarioState_def by (simp add: handler_defs)
  note t = q_update_scenario [OF disjI1 [OF h1] h2 h4 h5 h6 h7 h8]
  show ?thesis
    using h1 h2 h4 h5 h6 h7 h8 t h0 by simp
qed

subsection \<open>Which ticks touch the learning state\<close>

lemma creditPrevious_none:
  "prevStateKey s = None \<or> prevAction s = None \<Longrightarrow> creditPrevious q a b k s = s"
  by (auto simp: creditPrevious_def split: option.splits)

text \<open>
  C10. When a decision tick ends in a forced switch (the starvation override or the
  maximum-green rotation), the Q-table, epsilon, the total reward and the pending
  (state, action) pair are exactly as before the tick. The same holds for every tick that
  does not reach the Q-agent. Only a tick that reaches the Q-agent learns: it decays
  epsilon, overwrites the pending pair with the current state key and the chosen action,
  and, when a pair was pending, performs the Q-update on it, so that its value becomes
  \<open>oldQ + alpha * (reward + gamma * bestFuture - oldQ)\<close> and the total reward grows by
  the reward. When no pair was pending, the total reward and every value read from the
  Q-table are as before.
\<close>

theorem forced_switch_leaves_learning_state:
  "(snd (update now r1 r2 s) = StarvationSwitch \<or> snd (update now r1 r2 s) = MaxGreenSwitch \<longrightarrow>
      qTable (fst (update now r1 r2 s)) = qTable s
      \<and> currentEpsilon (fst (update now r1 r2 s)) = currentEpsilon s
      \<and> totalReward (fst (update now r1 r2 s)) = totalReward s
      \<and> prevStateKey (fst (update now r1 r2 s)) = prevStateKey s
      \<and> prevAction (fst (update now r1 r2 s)) = prevAction s)
   \<and> (snd (update now r1 r2 s) \<noteq> QKeep \<and> snd (update now r1 r2 s) \<noteq> QSwitch \<longrightarrow>
      qTable (fst (update now r1 r2 s)) = qTable s
      \<and> currentEpsilon (fst (update now r1 r2 s)) = currentEpsilon s
      \<and> totalReward (fst (update now r1 r2 s)) = totalReward s
      \<and> prevStateKey (fst (update now r1 r2 s)) = prevStateKey s
      \<and> prevAction (fst (update now r1 r2 s)) = prevAction s)
   \<and> (snd (update now r1 r2 s) = QKeep \<or> snd (update now r1 r2 s) = QSwitch \<longrightarrow>
      (let q = getQueues (vehicles s);
           maxRedNS = max (redDuration (laneState s N)) (redDuration (laneState s S));
           maxRedEW = max (redDuration (laneState s E)) (redDuration (laneState s W));
           stateKey = getStateKey (qNS q) (qEW q) (if NS (signals s) = GREEN then maxRedEW else maxRedNS);
           reward = - real (qNS q + qEW q) + - \<bar>maxRedNS - maxRedEW\<bar> * (1 / 10);
           bestFuture = max (fst (getQValue stateKey KEEP (qTable s)))
                            (fst (getQValue stateKey SWITCH (qTable s)))
       in currentEpsilon (fst (update now r1 r2 s)) = max Q_epsilonMin (currentEpsilon s * Q_epsilonDecay)
          \<and> prevStateKey (fst (update now r1 r2 s)) = Some stateKey
          \<and> prevAction (fst (update now r1 r2 s))
              = Some (if snd (update now r1 r2 s) = QSwitch then SWITCH else KEEP)
          \<and> (\<forall>pk pa. prevStateKey s = Some pk \<and> prevAction s = Some pa \<longrightarrow>
                fst (getQValue pk pa (qTable (fst (update now r1 r2 s))))
                  = fst (getQValue pk pa (qTable s))
                    + Q_alpha * (reward + Q_gamma * bestFuture - fst (getQValue pk pa (qTable s)))
                \<and> totalReward (fst (update now r1 r2 s)) = totalReward s + reward)
          \<and> (prevStateKey s = None \<or> prevAction s = None \<longrightarrow>
                totalReward (fst (update now r1 r2 s)) = totalReward s
                \<and> (\<forall>k a. fst (getQValue k a (qTable (fst (update now r1 r2 s))))
                            = fst (getQValue k a (qTable s))))))"
proof -
  let ?q = "getQueues (vehicles s)"
  let ?x = "max (redDuration (laneState s N)) (redDuration (laneState s S))"
  let ?y = "max (redDuration (laneState s E)) (redDuration (laneState s W))"
  let ?ph = "if NS (signals s) = GREEN then PhaseNS else PhaseEW"
  let ?k = "getStateKey (qNS ?q) (qEW ?q) (if NS (signals s) = GREEN then ?y else ?x)"
  let ?r = "- real (qNS ?q + qEW ?q) + - \<bar>?x - ?y\<bar> * (1 / 10)"
  let ?bf = "max (fst (getQValue ?k KEEP (qTable s))) (fst (getQValue ?k SWITCH (qTable s)))"
  have a: "snd (update now r1 r2 s) \<noteq> QKeep \<and> snd (update now r1 r2 s) \<noteq> QSwitch
           \<longrightarrow> sameLearning s (fst (update now r1 r2 s))"
    by (rule update_not_learned)
  have b: "snd (update now r1 r2 s) = StarvationSwitch \<or> snd (update now r1 r2 s) = MaxGreenSwitch
           \<longrightarrow> sameLearning s (fst (update now r1 r2 s))"
    using a by auto
  have c: "currentEpsilon (fst (update now r1 r2 s)) = max Q_epsilonMin (currentEpsilon s * Q_epsilonDecay)
          \<and> prevStateKey (fst (update now r1 r2 s)) = Some ?k
          \<and> prevAction (fst (update now r1 r2 s))
              = Some (if snd (update now r1 r2 s) = QSwitch then SWITCH else KEEP)
          \<and> (\<forall>pk pa. prevStateKey s = Some pk \<and> prevAction s = Some pa \<longrightarrow>
                fst (getQValue pk pa (qTable (fst (update now r1 r2 s))))
                  = fst (getQValue pk pa (qTable s))
                    + Q_alpha * (?r + Q_gamma * ?bf - fst (getQValue pk pa (qTable s)))
                \<and> totalReward (fst (update now r1 r2 s)) = totalReward s + ?r)
          \<and> (prevStateKey s = None \<or> prevAction s = None \<longrightarrow>
                totalReward (fst (update now r1 r2 s)) = totalReward s
                \<and> (\<forall>k a. fst (getQValue k a (qTable (fst (update now r1 r2 s))))
                            = fst (getQValue k a (qTable s))))"
    if l: "snd (update now r1 r2 s) = QKeep \<or> snd (update now r1 r2 s) = QSwitch"
  proof -
    have u: "update now r1 r2 s = qDecision r1 r2 ?ph ?q ?x ?y s"
      using l by (rule update_learned_eq)
    have kk: "getStateKey (qNS ?q) (qEW ?q) (if ?ph = PhaseNS then ?y else ?x) = ?k"
      by simp
    have c1: "currentEpsilon (fst (update now r1 r2 s)) = max Q_epsilonMin (currentEpsilon s * Q_epsilonDecay)"
      and c2: "prevStateKey (fst (update now r1 r2 s)) = Some ?k"
      and c3: "prevAction (fst (update now r1 r2 s))
              = Some (if snd (update now r1 r2 s) = QSwitch then SWITCH else KEEP)"
      unfolding u using qDecision_learning [of r1 r2 ?ph ?q ?x ?y s] unfolding kk by simp_all
    have c4: "fst (getQValue pk pa (qTable (fst (update now r1 r2 s))))
                  = fst (getQValue pk pa (qTable s))
                    + Q_alpha * (?r + Q_gamma * ?bf - fst (getQValue pk pa (qTable s)))
                \<and> totalReward (fst (update now r1 r2 s)) = totalReward s + ?r"
      if p: "prevStateKey s = Some pk \<and> prevAction s = Some pa" for pk pa
      unfolding u qDecision_qTable kk
      using creditPrevious_credit [of s pk pa ?q ?x ?y ?k] p by simp
    have c5: "totalReward (fst (update now r1 r2 s)) = totalReward s
                \<and> (\<forall>k a. fst (getQValue k a (qTable (fst (update now r1 r2 s))))
                            = fst (getQValue k a (qTable s)))"
      if n: "prevStateKey s = None \<or> prevAction s = None"
      unfolding u qDecision_qTable kk creditPrevious_none [OF n] by simp
    from c1 c2 c3 c4 c5 show ?thesis by blast
  qed
  from a b c show ?thesis
    unfolding sameLearning_def Let_def by blast
qed


theorem forced_switch_leaves_learning_state_witness:
  "snd (update 121000 0 0 starvedState) = StarvationSwitch
   \<and> qTable (fst (update 121000 0 0 starvedState)) = qTable starvedState
   \<and> currentEpsilon (fst (update 121000 0 0 starvedState)) = 3 / 10
   \<and> prevStateKey (fst (update 121000 0 0 starvedState)) = None
   \<and> snd (update 61000 0 0 overdueState) = MaxGreenSwitch
   \<and> qTable (fst (update 61000 0 0 overdueState)) = qTable overdueState
   \<and> currentEpsilon (fst (update 61000 0 0 overdueState)) = 3 / 10
   \<and> prevStateKey (fst (update 61000 0 0 overdueState)) = None
   \<and> snd (update 8000 0 (3 / 4) preSwitchState) = QSwitch
   \<and> currentEpsilon (fst (update 8000 0 (3 / 4) preSwitchState)) = 2994 / 10000
   \<and> prevAction (fst (update 8000 0 (3 / 4) preSwitchState)) = Some SWITCH
   \<and> snd (update 8000 (1 / 2) 0 scenarioState) = QKeep
   \<and> prevStateKey scenarioState = Some ''0_0_0'' \<and> prevAction scenarioState = Some KEEP
   \<and> fst (getQValue ''0_0_0'' KEEP (qTable scenarioState)) = 0
   \<and> totalReward scenarioState = 0
   \<and> fst (getQValue ''0_0_0'' KEEP (qTable (fst (update 8000 (1 / 2) 0 scenarioState)))) = - 1305 / 1000
   \<and> totalReward (fst (update 8000 (1 / 2) 0 scenarioState)) = - 105 / 10
   \<and> currentEpsilon (fst (update 8000 (1 / 2) 0 scenarioState)) = 2994 / 10000
   \<and> prevStateKey (fst (update 8000 (1 / 2) 0 scenarioState)) = Some ''1_1_0''
   \<and> prevAction (fst (update 8000 (1 / 2) 0 scenarioState)) = Some KEEP"
proof -
  have e: "snd (update 121000 0 0 starvedState) = StarvationSwitch"
    "currentEpsilon starvedState = 3 / 10" "prevStateKey starvedState = None"
    "snd (update 61000 0 0 overdueState) = MaxGreenSwitch"
    "currentEpsilon overdueState = 3 / 10" "prevStateKey overdueState = None"
    "snd (update 8000 0 (3 / 4) preSwitchState) = QSwitch"
    "currentEpsilon preSwitchState = 3 / 10"
    unfolding starvedState_def overdueState_def preSwitchState_def
    by (simp_all add: handler_defs)
  have f: "snd (update 8000 0 (3 / 4) preSwitchState) = QKeep \<or> snd (update 8000 0 (3 / 4) preSwitchState) = QSwitch"
    using e(7) by simp
  have p: "currentEpsilon (fst (update 8000 0 (3 / 4) preSwitchState)) = 2994 / 10000"
    "prevAction (fst (update 8000 0 (3 / 4) preSwitchState)) = Some SWITCH"
    using forced_switch_leaves_learning_state [of 8000 0 "3 / 4" preSwitchState, THEN conjunct2, THEN conjunct2, rule_format, OF f]
      e(7,8)
    by (simp_all add: Let_def Q_epsilonMin_def Q_epsilonDecay_def)
  have g: "snd (update 8000 (1 / 2) 0 scenarioState) = QKeep"
    "prevStateKey scenarioState = Some ''0_0_0''" "prevAction scenarioState = Some KEEP"
    "fst (getQValue ''0_0_0'' KEEP (qTable scenarioState)) = 0"
    "totalReward scenarioState = 0" "currentEpsilon scenarioState = 3 / 10"
    "NS (signals scenarioState) \<noteq> GREEN"
    "qNS (getQueues (vehicles scenarioState)) = 6" "qEW (getQueues (vehicles scenarioState)) = 4"
    "max (redDuration (laneState scenarioState N)) (redDuration (laneState scenarioState S)) = 5"
    "max (redDuration (laneState scenarioState E)) (redDuration (laneState scenarioState W)) = 0"
    "getStateKey 6 4 5 = ''1_1_0''"
    "fst (getQValue ''1_1_0'' KEEP (qTable scenarioState)) = 2"
    "fst (getQValue ''1_1_0'' SWITCH (qTable scenarioState)) = 1"
    unfolding scenarioState_def by (simp_all add: handler_defs)
  have h: "snd (update 8000 (1 / 2) 0 scenarioState) = QKeep \<or> snd (update 8000 (1 / 2) 0 scenarioState) = QSwitch"
    using g(1) by simp
  note t = forced_switch_leaves_learning_state [of 8000 "1 / 2" 0 scenarioState, THEN conjunct2, THEN conjunct2, rule_format, OF h, unfolded Let_def]
  have s1: "currentEpsilon (fst (update 8000 (1 / 2) 0 scenarioState)) = 2994 / 10000"
    using t [THEN conjunct1] g(6) by (simp add: Q_epsilonMin_def Q_epsilonDecay_def)
  have s2: "prevStateKey (fst (update 8000 (1 / 2) 0 scenarioState)) = Some ''1_1_0''"
    using t [THEN conjunct2, THEN conjunct1] g(7-12) by simp
  have s3: "prevAction (fst (update 8000 (1 / 2) 0 scenarioState)) = Some KEEP"
    using t [THEN conjunct2, THEN conjunct2, THEN conjunct1] g(1) by simp
  have s4: "fst (getQValue ''0_0_0'' KEEP (qTable (fst (update 8000 (1 / 2) 0 scenarioState)))) = - 1305 / 1000
    \<and> totalReward (fst (update 8000 (1 / 2) 0 scenarioState)) = - 105 / 10"
    using t [THEN conjunct2, THEN conjunct2, THEN conjunct2, THEN conjunct1, rule_format, of "''0_0_0''" KEEP]
      g(2-5) g(7-14)
    by (simp add: Q_alpha_def Q_gamma_def)
  show ?thesis
    using e p g(1-5) s1 s2 s3 s4
      forced_switch_leaves_learning_state [of 121000 0 0 starvedState]
      forced_switch_leaves_learning_state [of 61000 0 0 overdueState]
    by simp
qed

subsection \<open>The keys of the Q-table\<close>

lemma discretize_bound: "discretize v bins \<le> length bins - 1"
  using discretize_loop_le [of v bins "length bins"] by (simp add: discretize_def)

lemma getStateKey_in: "getStateKey x y z \<in> allStateKeys"
proof -
  have "discretize (real x) queueBins \<le> 4" "discretize (real y) queueBins \<le> 4" "discretize z redBins \<le> 4"
    using discretize_bound [of "real x" queueBins] discretize_bound [of "real y" queueBins]
      discretize_bound [of z redBins]
    by (simp_all add: queueBins_def redBins_def)
  then show ?thesis
    unfolding allStateKeys_def getStateKey_def Let_def by (intro image_eqI [where x = "(discretize (real x) queueBins, discretize (real y) queueBins, discretize z redBins)"]) simp_all
qed

lemma card_allStateKeys: "finite allStateKeys \<and> card allStateKeys \<le> 125"
proof -
  have f: "finite (({..4} \<times> {..4} \<times> {..4}) :: (nat \<times> nat \<times> nat) set)" by simp
  have c: "card (({..4} \<times> {..4} \<times> {..4}) :: (nat \<times> nat \<times> nat) set) = 125"
    by (simp add: card_cartesian_product)
  show ?thesis
    unfolding allStateKeys_def using card_image_le [OF f] c f by (metis finite_imageI)
qed

lemma dom_getQValue: "dom (snd (getQValue k a t)) \<subseteq> insert k (dom t)"
  by (auto simp: getQValue_def split: option.splits)

lemma dom_setQValue: "dom (setQValue k a v t) = insert k (dom t)"
  by (auto simp: setQValue_def split: option.splits)

lemma dom_getBestAction: "dom (snd (getBestAction k t)) \<subseteq> insert k (dom t)"
  using dom_getQValue [of k SWITCH "snd (getQValue k KEEP t)"] dom_getQValue [of k KEEP t]
  by (auto simp: getBestAction_def split_beta)

lemma dom_chooseAction: "dom (snd (chooseAction r1 r2 k s)) \<subseteq> insert k (dom (qTable s))"
  using dom_getBestAction [of k "qTable s"] by (auto simp: chooseAction_def)

lemma dom_creditPrevious:
  "keyInv s \<Longrightarrow> k \<in> allStateKeys \<Longrightarrow> dom (qTable (creditPrevious q a b k s)) \<subseteq> allStateKeys"
proof (cases "prevStateKey s")
  case None
  then show "keyInv s \<Longrightarrow> k \<in> allStateKeys \<Longrightarrow> ?thesis" by (simp add: creditPrevious_def keyInv_def)
next
  case (Some pk)
  assume inv: "keyInv s" and k: "k \<in> allStateKeys"
  have pk: "pk \<in> allStateKeys" using inv Some by (simp add: keyInv_def)
  show ?thesis
  proof (cases "prevAction s")
    case None
    then show ?thesis using inv Some by (simp add: creditPrevious_def keyInv_def)
  next
    case (Some pa)
    let ?t1 = "snd (getQValue pk pa (qTable s))"
    let ?t2 = "snd (getQValue k KEEP ?t1)"
    let ?t3 = "snd (getQValue k SWITCH ?t2)"
    have "dom ?t3 \<subseteq> insert k (insert k (insert pk (dom (qTable s))))"
      using dom_getQValue [of k SWITCH ?t2] dom_getQValue [of k KEEP ?t1] dom_getQValue [of pk pa "qTable s"]
      by blast
    then have "dom ?t3 \<subseteq> allStateKeys"
      using inv k pk by (auto simp: keyInv_def)
    then show ?thesis
      using Some \<open>prevStateKey s = Some pk\<close> pk
      by (simp add: creditPrevious_def Let_def split_beta dom_setQValue)
  qed
qed

lemma keyInv_qDecision:
  assumes "keyInv s"
  shows "keyInv (fst (qDecision r1 r2 ph q a b s))"
proof -
  let ?k = "getStateKey (qNS q) (qEW q) (if ph = PhaseNS then b else a)"
  let ?s1 = "creditPrevious q a b ?k s"
  have k: "?k \<in> allStateKeys" by (rule getStateKey_in)
  have d1: "dom (qTable ?s1) \<subseteq> allStateKeys" using assms k by (rule dom_creditPrevious)
  have d2: "dom (snd (chooseAction r1 r2 ?k ?s1)) \<subseteq> allStateKeys"
    using dom_chooseAction [of r1 r2 ?k ?s1] d1 k by blast
  show ?thesis
    using d2 k by (simp add: qDecision_def Let_def split_beta keyInv_def performSwitch_def)
qed


lemma keyInv_performSwitch [simp]: "keyInv (performSwitch s) = keyInv s"
  by (simp add: keyInv_def performSwitch_def)

lemma keyInv_starvation [simp]: "keyInv (s\<lparr>starvationEvents := n\<rparr>) = keyInv s"
  by (simp add: keyInv_def)

lemma keyInv_update: "keyInv s \<Longrightarrow> keyInv (fst (update now r1 r2 s))"
  using update_shape [of now r1 r2 s]
  by (elim disjE) (simp_all add: keyInv_qDecision)

lemma endBaseline_keys [simp]:
  "qTable (endBaseline s) = qTable s" "prevStateKey (endBaseline s) = prevStateKey s"
  by (simp_all add: endBaseline_def Let_def)

lemma baselineTick_keys [simp]:
  "qTable (baselineTick e s) = qTable s" "prevStateKey (baselineTick e s) = prevStateKey s"
  by (simp_all add: baselineTick_def Let_def)

lemma tick_keys [simp]:
  "qTable (tick now s) = qTable s" "prevStateKey (tick now s) = prevStateKey s"
  by (simp_all add: tick_def Let_def)

lemma startBaseline_keys [simp]:
  "qTable (startBaseline s) = qTable s" "prevStateKey (startBaseline s) = prevStateKey s"
  by (simp_all add: startBaseline_def)

lemma keyInv_step: "keyInv s \<Longrightarrow> keyInv (step e s)"
proof (cases e)
  case (Update a b c) then show "keyInv s \<Longrightarrow> ?thesis" by (simp add: keyInv_update)
qed (simp_all add: keyInv_def performSwitchResume_def recordAIMetrics_def btnStart_def btnPause_def
        btnReset_def btnAI_def btnNS_def btnEW_def btnBaseline_def Let_def
      split: option.splits phase.splits)

lemma keyInv_reachable: "reachable s \<Longrightarrow> keyInv s"
proof (induction rule: reachable.induct)
  case (reachable_init t0 t1)
  show ?case by (simp add: keyInv_def init_def)
next
  case (reachable_step s e)
  then show ?case by (simp add: keyInv_step)
qed

text \<open>
  C8. In every reachable state every key of the Q-table is a key that \<open>getStateKey\<close>
  builds from three bin indices between 0 and 4, so the Q-table has at most
  5 * 5 * 5 = 125 distinct keys.
\<close>

theorem qTable_at_most_125_keys:
  "reachable s \<Longrightarrow>
     dom (qTable s) \<subseteq> allStateKeys \<and> finite (dom (qTable s)) \<and> card (dom (qTable s)) \<le> 125"
proof -
  assume "reachable s"
  then have d: "dom (qTable s) \<subseteq> allStateKeys"
    using keyInv_reachable [of s] by (simp add: keyInv_def)
  have f: "finite allStateKeys" and c: "card allStateKeys \<le> 125"
    using card_allStateKeys by simp_all
  have "card (dom (qTable s)) \<le> card allStateKeys"
    using d f by (rule card_mono [rotated])
  with d f c show ?thesis
    by (auto intro: finite_subset)
qed

theorem qTable_at_most_125_keys_witness:
  "reachable greedyState \<and> dom (qTable greedyState) = {''0_0_0''}
   \<and> dom (qTable greedyState) \<subseteq> allStateKeys \<and> card (dom (qTable greedyState)) \<le> 125"
proof -
  have r: "reachable greedyState"
    unfolding greedyState_def by (rule reachable_run) (rule reachable_init)
  have e: "dom (qTable greedyState) = {''0_0_0''}"
    unfolding greedyState_def by (simp add: handler_defs)
  show ?thesis
    using r e qTable_at_most_125_keys [OF r] by simp
qed

subsection \<open>The length and the flips of a baseline run\<close>

























end
